theory Spec2Isabelle
  imports Main
begin

section \<open>Python strings\<close>

text \<open>
  The message handlers of \<^verbatim>\<open>handlers.py\<close> work on Python strings. A string is
  modelled as a \<^typ>\<open>string\<close>, the list of the bytes of its UTF-8 encoding, in which
  a character of ASCII is one byte and no byte of a longer character is one of ASCII; the
  methods the handlers call are written out below. Letter case is that of ASCII, which is
  the alphabet of every keyword and every delimiter the handlers look for.
\<close>

text \<open>\<^verbatim>\<open>s.startswith(p)\<close>\<close>

fun startswith :: "string \<Rightarrow> string \<Rightarrow> bool" where
  "startswith s [] = True"
| "startswith [] (p # ps) = False"
| "startswith (c # s) (p # ps) = (c = p \<and> startswith s ps)"

text \<open>\<^verbatim>\<open>p in s\<close>: the string \<open>p\<close> occurs somewhere in \<open>s\<close>.\<close>

fun contains :: "string \<Rightarrow> string \<Rightarrow> bool" where
  "contains [] p = (p = [])"
| "contains (c # s) p = (startswith (c # s) p \<or> contains s p)"

text \<open>\<^verbatim>\<open>s.lower()\<close> on the letters A to Z.\<close>

definition lower_char :: "char \<Rightarrow> char" where
  "lower_char c =
     (case map_of (zip ''ABCDEFGHIJKLMNOPQRSTUVWXYZ'' ''abcdefghijklmnopqrstuvwxyz'') c of
        Some d \<Rightarrow> d
      | None \<Rightarrow> c)"

definition lower :: "string \<Rightarrow> string" where
  "lower s = map lower_char s"

text \<open>
  \<^verbatim>\<open>s.strip()\<close> removes the whitespace characters at the two ends. Python counts
  as whitespace the code points 9 to 13, 28 to 32, U+0085, U+00A0, U+1680, U+2000 to
  U+200A, U+2028, U+2029, U+202F, U+205F and U+3000; \<open>whitespace\<close> lists their
  encodings, of one, two or three bytes. \<open>drop_leading ws s\<close> removes from the front of
  \<open>s\<close> every element of \<open>ws\<close> it starts with; the end of \<open>s\<close> is the front of its
  reversal.
\<close>

definition whitespace :: "string list" where
  "whitespace =
     [[CHR 0x09], [CHR 0x0A], [CHR 0x0B], [CHR 0x0C], [CHR 0x0D],
      [CHR 0x1C], [CHR 0x1D], [CHR 0x1E], [CHR 0x1F], [CHR 0x20],
      [CHR 0xC2, CHR 0x85], [CHR 0xC2, CHR 0xA0],
      [CHR 0xE1, CHR 0x9A, CHR 0x80],
      [CHR 0xE2, CHR 0x80, CHR 0x80], [CHR 0xE2, CHR 0x80, CHR 0x81],
      [CHR 0xE2, CHR 0x80, CHR 0x82], [CHR 0xE2, CHR 0x80, CHR 0x83],
      [CHR 0xE2, CHR 0x80, CHR 0x84], [CHR 0xE2, CHR 0x80, CHR 0x85],
      [CHR 0xE2, CHR 0x80, CHR 0x86], [CHR 0xE2, CHR 0x80, CHR 0x87],
      [CHR 0xE2, CHR 0x80, CHR 0x88], [CHR 0xE2, CHR 0x80, CHR 0x89],
      [CHR 0xE2, CHR 0x80, CHR 0x8A],
      [CHR 0xE2, CHR 0x80, CHR 0xA8], [CHR 0xE2, CHR 0x80, CHR 0xA9],
      [CHR 0xE2, CHR 0x80, CHR 0xAF],
      [CHR 0xE2, CHR 0x81, CHR 0x9F],
      [CHR 0xE3, CHR 0x80, CHR 0x80]]"

fun drop_leading :: "string list \<Rightarrow> string \<Rightarrow> string" where
  "drop_leading ws [] = []"
| "drop_leading ws (c # s) =
     (if [c] \<in> set ws then drop_leading ws s
      else if c # take 1 s \<in> set ws then drop_leading ws (drop 1 s)
      else if c # take 2 s \<in> set ws then drop_leading ws (drop 2 s)
      else c # s)"

definition strip :: "string \<Rightarrow> string" where
  "strip s = rev (drop_leading (map rev whitespace) (rev (drop_leading whitespace s)))"

text \<open>
  \<^verbatim>\<open>s.index(c)\<close> for a one-character \<open>c\<close>: the position of its first occurrence;
  \<open>None\<close> stands for the \<^verbatim>\<open>ValueError\<close> Python raises when there is none.
\<close>

fun index :: "string \<Rightarrow> char \<Rightarrow> nat option" where
  "index [] c = None"
| "index (x # xs) c = (if x = c then Some 0 else map_option Suc (index xs c))"

text \<open>
  \<^verbatim>\<open>s.split(d)\<close> for a one-character delimiter \<open>d\<close>: the pieces between the
  delimiters, empty pieces included; the result is never empty.
\<close>

fun split :: "string \<Rightarrow> char \<Rightarrow> string list" where
  "split [] d = [[]]"
| "split (c # cs) d =
     (if c = d then [] # split cs d
      else (case split cs d of [] \<Rightarrow> [[c]] | w # ws \<Rightarrow> (c # w) # ws))"

text \<open>
  \<^verbatim>\<open>s.replace(k, '', 1)\<close>: the first occurrence of \<open>k\<close> is removed; an empty \<open>k\<close>
  or a \<open>k\<close> that does not occur leaves \<open>s\<close> as it is.
\<close>

fun remove_first :: "string \<Rightarrow> string \<Rightarrow> string" where
  "remove_first [] k = []"
| "remove_first (c # s) k =
     (if k = [] then c # s
      else if startswith (c # s) k then drop (length k) (c # s)
      else c # remove_first s k)"

text \<open>\<^verbatim>\<open>sep.join(xs)\<close>\<close>

fun join :: "string \<Rightarrow> string list \<Rightarrow> string" where
  "join sep [] = []"
| "join sep [x] = x"
| "join sep (x # y # ys) = x @ sep @ join sep (y # ys)"

text \<open>\<^verbatim>\<open>'%s' % n\<close> for a length \<open>n\<close>: its decimal digits.\<close>

definition digit :: "nat \<Rightarrow> char" where
  "digit d = ''0123456789'' ! d"

fun str_nat :: "nat \<Rightarrow> string" where
  "str_nat n = (if n < 10 then [digit n] else str_nat (n div 10) @ [digit (n mod 10)])"

declare str_nat.simps [simp del]

section \<open>Messages, players and errors\<close>

text \<open>
  A player and an inbound message are objects of the messaging platform; the handlers
  read the fields below. An exception raised by a handler is a value of \<open>error\<close>, and
  a function that may raise returns \<open>error + 'a\<close>, \<open>Inl\<close> the exception.
\<close>

record player =
  ident :: nat
  display_name :: string

record message =
  content :: string
  clean_content :: string
  author :: player

datatype error = ValueError | AttributeError | TypeError | StoreError

section \<open>Mentions\<close>

text \<open>\<^verbatim>\<open>create_mention(player)\<close>\<close>

definition create_mention :: "player \<Rightarrow> string" where
  "create_mention p = ''<@!'' @ str_nat (ident p) @ ''>''"

text \<open>
  \<^verbatim>\<open>split_by_first_mention(message)\<close>: when the content starts with \<^verbatim>\<open><@\<close>, the
  position of the first \<^verbatim>\<open>>\<close> is looked up with \<^verbatim>\<open>index\<close>, which raises when the
  content has none.
\<close>

definition split_by_first_mention :: "message \<Rightarrow> error + (string \<times> string)" where
  "split_by_first_mention m =
     (let msg = content m in
      if startswith msg ''<@'' then
        (case index msg (CHR ''>'') of
           None \<Rightarrow> Inl ValueError
         | Some i \<Rightarrow> (let idx = i + 1 in Inr (take idx msg, strip (drop idx msg))))
      else Inr ('''', msg))"

section \<open>The collaborators of the handlers\<close>

text \<open>
  \<^verbatim>\<open>handlers.py\<close> imports the roster store \<^verbatim>\<open>db\<close>, the game catalog
  (\<^verbatim>\<open>games\<close>, \<^verbatim>\<open>lookup_game_by_name_or_alias\<close>, the methods of a game) and
  \<^verbatim>\<open>extract_remainder_after_fragments\<close> from modules that are not part of the
  sources at hand, and reads \<^verbatim>\<open>CLIENT_ID\<close> from the environment. They are the
  fields of the record \<open>env\<close>, so that every theorem below holds for whatever these
  collaborators compute. \<open>'g\<close> is the type of games and \<open>'st\<close> the state of the roster
  store, which the operations of the store take and return.

  A method of a game reads the store and returns. \<^verbatim>\<open>db.record_would_play\<close> is
  handed whatever the catalog lookup returned, also \<^verbatim>\<open>None\<close>, and may raise. Where
  a handler tests a game or a record (\<^verbatim>\<open>if game\<close>, \<^verbatim>\<open>game or\<close>,
  \<^verbatim>\<open>if not last_would_play\<close>), an object counts as true and \<^verbatim>\<open>None\<close> as false.
  \<open>set_iteration\<close> is the order in which Python iterates over \<^verbatim>\<open>set(xs)\<close>.
  \<open>game_getattr\<close> is \<^verbatim>\<open>getattr(game, attribute)\<close>, \<open>None\<close> when the object has no
  such attribute; an attribute value carries its \<^verbatim>\<open>str()\<close> and, when it is a
  sequence of strings, its elements.
\<close>

record 'g would_play =
  user :: player
  game :: 'g

record attr_value =
  as_str :: string
  as_strs :: "string list option"

record ('g, 'st) env =
  CLIENT_ID :: "string option"
  extract_remainder_after_fragments :: "string list \<Rightarrow> string \<Rightarrow> string"
  lookup_game_by_name_or_alias :: "string \<Rightarrow> 'g option"
  games :: "'g list"
  game_str :: "'g \<Rightarrow> string"
  game_name :: "'g \<Rightarrow> string"
  game_getattr :: "'g option \<Rightarrow> string \<Rightarrow> attr_value option"
  get_available_players :: "'g \<Rightarrow> 'st \<Rightarrow> player list"
  is_ready_to_play :: "'g \<Rightarrow> 'st \<Rightarrow> bool"
  get_ready_messages :: "'g \<Rightarrow> 'st \<Rightarrow> string list"
  get_players_for_next_game :: "'g \<Rightarrow> 'st \<Rightarrow> player list"
  user_str :: "player \<Rightarrow> string"
  record_would_play :: "player \<Rightarrow> 'g option \<Rightarrow> 'st \<Rightarrow> error + ('g would_play \<times> 'st)"
  get_last_would_play :: "'g option \<Rightarrow> 'st \<Rightarrow> 'g would_play option"
  get_last_would_plays_at_same_time :: "'st \<Rightarrow> 'g would_play list"
  clear_game :: "'g \<Rightarrow> 'st \<Rightarrow> 'st"
  cancel_would_plays :: "player \<Rightarrow> 'st \<Rightarrow> 'st"
  set_iteration :: "'g list \<Rightarrow> 'g list"

text \<open>\<^verbatim>\<open>get_any_ready_messages(game)\<close>\<close>

definition get_any_ready_messages :: "('g, 'st) env \<Rightarrow> 'g \<Rightarrow> 'st \<Rightarrow> string list" where
  "get_any_ready_messages e g st =
     (if is_ready_to_play e g st then get_ready_messages e g st else [])"

text \<open>
  \<^verbatim>\<open>is_bot_mention(mention)\<close>: the slice \<^verbatim>\<open>mention[a:-1]\<close> drops the first
  \<open>a\<close> characters and the last one.
\<close>

definition is_bot_mention :: "('g, 'st) env \<Rightarrow> string \<Rightarrow> bool" where
  "is_bot_mention e mention =
     (Some (butlast (drop (if startswith mention ''<@!'' then 3 else 2) mention)) = CLIENT_ID e)"

section \<open>The handlers\<close>

text \<open>
  One constructor per handler class. \<open>keywords_of\<close> and \<open>fragments\<close> are the class
  attributes; a mention-triggered handler takes its keywords as fragments
  (\<^verbatim>\<open>MentionMessageHandler.__init__\<close>). The right single quotation mark of four
  of the fragments is written as its three bytes.
\<close>

datatype handler =
    WouldPlayHandler | SameHandler | StatusHandler | ClearHandler | CancelHandler
  | PingHandler | AccidentalRoleMentionHandler | QueryGameHandler | QueryPropertyHandler

definition multi_game_delimiter :: char where
  "multi_game_delimiter = CHR ''/''"

definition rsquo :: string where
  "rsquo = [CHR 0xE2, CHR 0x80, CHR 0x99]"

definition apostrophe :: string where
  "apostrophe = [CHR 0x27]"

fun keywords_of :: "handler \<Rightarrow> string list" where
  "keywords_of StatusHandler = [''status'']"
| "keywords_of ClearHandler = [''clear'']"
| "keywords_of CancelHandler = [''cancel'']"
| "keywords_of PingHandler = [''ping'', ''p'']"
| "keywords_of QueryGameHandler = [''query games'']"
| "keywords_of QueryPropertyHandler = [''query'']"
| "keywords_of h = []"

fun fragments :: "handler \<Rightarrow> string list" where
  "fragments WouldPlayHandler =
     [''I'' @ apostrophe @ ''d play'', ''id play'', ''I'' @ apostrophe @ ''d paly'', ''id paly'',
      ''I'' @ rsquo @ ''d play'', ''I'' @ rsquo @ ''d paly'', ''I'' @ rsquo @ ''dplay'',
      ''I'' @ rsquo @ ''dpaly'']"
| "fragments SameHandler = [''same to'', ''same'']"
| "fragments h = keywords_of h"

text \<open>\<^verbatim>\<open>ContentBasedHandler.should_handle\<close>\<close>

definition ContentBasedHandler_should_handle :: "string list \<Rightarrow> message \<Rightarrow> bool" where
  "ContentBasedHandler_should_handle frags m =
     list_ex (\<lambda>f. startswith (lower (content m)) (lower f)) frags"

text \<open>
  \<^verbatim>\<open>MentionMessageHandler.should_handle\<close>: an exception of
  \<open>split_by_first_mention\<close> goes through.
\<close>

definition MentionMessageHandler_should_handle ::
  "('g, 'st) env \<Rightarrow> string list \<Rightarrow> message \<Rightarrow> error + bool" where
  "MentionMessageHandler_should_handle e kws m =
     (case split_by_first_mention m of
        Inl err \<Rightarrow> Inl err
      | Inr (mention, remainder) \<Rightarrow>
          Inr (is_bot_mention e mention \<and>
               list_ex (\<lambda>kw. startswith (lower remainder) (lower kw)) kws))"

text \<open>\<^verbatim>\<open>should_handle\<close> of each handler class.\<close>

fun should_handle :: "('g, 'st) env \<Rightarrow> handler \<Rightarrow> message \<Rightarrow> error + bool" where
  "should_handle e WouldPlayHandler m =
     Inr (ContentBasedHandler_should_handle (fragments WouldPlayHandler) m)"
| "should_handle e SameHandler m =
     Inr (ContentBasedHandler_should_handle (fragments SameHandler) m)"
| "should_handle e AccidentalRoleMentionHandler m =
     Inr (contains (clean_content m) ''Play Register'' \<and> contains (content m) ''<@&'')"
| "should_handle e h m = MentionMessageHandler_should_handle e (keywords_of h) m"

text \<open>
  \<^verbatim>\<open>MentionMessageHandler.split_string_by_keywords\<close>: the loop over the keywords
  returns at the first keyword whose removal changes the string.
\<close>

fun split_string_by_keywords :: "string list \<Rightarrow> string \<Rightarrow> string option \<times> string" where
  "split_string_by_keywords [] s = (None, s)"
| "split_string_by_keywords (keyword # kws) s =
     (let kw_removed_string = remove_first s keyword in
      if kw_removed_string \<noteq> s then (Some keyword, strip kw_removed_string)
      else split_string_by_keywords kws s)"

subsection \<open>Responses per game\<close>

text \<open>
  \<^verbatim>\<open>get_all_responses\<close> returns the list of responses; the model returns the state of
  the roster store with it, or the exception raised. A method called on \<^verbatim>\<open>None\<close>
  raises \<^verbatim>\<open>AttributeError\<close>.
\<close>

type_synonym 'st responses = "error + (string list \<times> 'st)"

text \<open>
  The line \<^verbatim>\<open>"%s would play %s (that's %s)" % (would_play.user, game,
  len(game.get_available_players()))\<close> of the WouldPlay handler and the one of the Same
  handler, which differ in the verb.
\<close>

definition would_play_line ::
  "('g, 'st) env \<Rightarrow> string \<Rightarrow> 'g would_play \<Rightarrow> 'g \<Rightarrow> 'st \<Rightarrow> string" where
  "would_play_line e verb wp g st =
     user_str e (user wp) @ verb @ game_str e g @ '' (that'' @ apostrophe @ ''s '' @
     str_nat (length (get_available_players e g st)) @ '')''"

definition WouldPlayHandler_with_game ::
  "('g, 'st) env \<Rightarrow> message \<Rightarrow> 'g option \<Rightarrow> 'st \<Rightarrow> 'st responses" where
  "WouldPlayHandler_with_game e m g st =
     (case record_would_play e (author m) g st of
        Inl err \<Rightarrow> Inl err
      | Inr (wp, st1) \<Rightarrow>
          (case g of
             None \<Rightarrow> Inl AttributeError
           | Some gm \<Rightarrow>
               Inr ([would_play_line e '' would play '' wp gm st1] @
                    get_any_ready_messages e gm st1, st1)))"

text \<open>\<^verbatim>\<open>SameHandler.get_all_responses_with_optional_game\<close>\<close>

definition SameHandler_with_optional_game ::
  "('g, 'st) env \<Rightarrow> message \<Rightarrow> 'g option \<Rightarrow> 'st \<Rightarrow> 'st responses" where
  "SameHandler_with_optional_game e m g st =
     (case get_last_would_play e g st of
        None \<Rightarrow> Inr ([], st)
      | Some last_would_play \<Rightarrow>
          (let gm = (case g of Some x \<Rightarrow> x | None \<Rightarrow> game last_would_play) in
           case record_would_play e (author m) (Some gm) st of
             Inl err \<Rightarrow> Inl err
           | Inr (wp, st1) \<Rightarrow>
               Inr ([would_play_line e '' would also play '' wp gm st1] @
                    get_any_ready_messages e gm st1, st1)))"

text \<open>
  \<^verbatim>\<open>SameHandler.get_all_responses_without_game\<close>: the first loop records and
  announces, the second one appends the readiness messages, both over the same set.
\<close>

fun same_record_loop ::
  "('g, 'st) env \<Rightarrow> message \<Rightarrow> 'g list \<Rightarrow> string list \<Rightarrow> 'st \<Rightarrow> 'st responses" where
  "same_record_loop e m [] messages st = Inr (messages, st)"
| "same_record_loop e m (g # gs) messages st =
     (case record_would_play e (author m) (Some g) st of
        Inl err \<Rightarrow> Inl err
      | Inr (wp, st1) \<Rightarrow>
          same_record_loop e m gs
            (messages @ [would_play_line e '' would also play '' wp g st1]) st1)"

fun same_ready_loop ::
  "('g, 'st) env \<Rightarrow> 'g list \<Rightarrow> string list \<Rightarrow> 'st \<Rightarrow> string list" where
  "same_ready_loop e [] messages st = messages"
| "same_ready_loop e (g # gs) messages st =
     same_ready_loop e gs (messages @ get_any_ready_messages e g st) st"

definition SameHandler_without_game ::
  "('g, 'st) env \<Rightarrow> message \<Rightarrow> 'st \<Rightarrow> 'st responses" where
  "SameHandler_without_game e m st =
     (let last_would_plays = get_last_would_plays_at_same_time e st in
      if last_would_plays = [] then Inr ([], st)
      else
        (let gs = set_iteration e (map game last_would_plays) in
         case same_record_loop e m gs [] st of
           Inl err \<Rightarrow> Inl err
         | Inr (messages, st1) \<Rightarrow> Inr (same_ready_loop e gs messages st1, st1)))"

definition ClearHandler_with_game ::
  "('g, 'st) env \<Rightarrow> message \<Rightarrow> 'g option \<Rightarrow> 'st \<Rightarrow> 'st responses" where
  "ClearHandler_with_game e m g st =
     (case g of
        Some gm \<Rightarrow> Inr ([''Cleared '' @ game_str e gm], clear_game e gm st)
      | None \<Rightarrow> Inr ([''No game specified!''], st))"

definition PingHandler_with_game ::
  "('g, 'st) env \<Rightarrow> message \<Rightarrow> 'g option \<Rightarrow> 'st \<Rightarrow> 'st responses" where
  "PingHandler_with_game e m g st =
     (case g of
        None \<Rightarrow> Inl AttributeError
      | Some gm \<Rightarrow>
          (let players = get_players_for_next_game e gm st;
               st1 = clear_game e gm st
           in Inr ([join '','' (map create_mention players) @ '' - ready to play '' @
                    game_str e gm @ ''.''], st1)))"

subsection \<open>Multi-game extraction\<close>

text \<open>
  \<^verbatim>\<open>get_all_responses_with_game\<close> and \<^verbatim>\<open>get_all_responses_without_game\<close> as the
  method resolution of Python finds them: the four handlers that inherit from
  \<^verbatim>\<open>GameExtractionMixin\<close> define the first, only \<^verbatim>\<open>SameHandler\<close> overrides the
  second, whose default returns no response. The other classes have neither method.
\<close>

fun get_all_responses_with_game ::
  "('g, 'st) env \<Rightarrow> handler \<Rightarrow> message \<Rightarrow> 'g option \<Rightarrow> 'st \<Rightarrow> 'st responses" where
  "get_all_responses_with_game e WouldPlayHandler m g st = WouldPlayHandler_with_game e m g st"
| "get_all_responses_with_game e SameHandler m g st = SameHandler_with_optional_game e m g st"
| "get_all_responses_with_game e ClearHandler m g st = ClearHandler_with_game e m g st"
| "get_all_responses_with_game e PingHandler m g st = PingHandler_with_game e m g st"
| "get_all_responses_with_game e h m g st = Inl AttributeError"

fun get_all_responses_without_game ::
  "('g, 'st) env \<Rightarrow> handler \<Rightarrow> message \<Rightarrow> 'st \<Rightarrow> 'st responses" where
  "get_all_responses_without_game e SameHandler m st = SameHandler_without_game e m st"
| "get_all_responses_without_game e WouldPlayHandler m st = Inr ([], st)"
| "get_all_responses_without_game e ClearHandler m st = Inr ([], st)"
| "get_all_responses_without_game e PingHandler m st = Inr ([], st)"
| "get_all_responses_without_game e h m st = Inl AttributeError"

text \<open>
  The loop of \<^verbatim>\<open>GameExtractionMixin.get_all_responses\<close> over the game names, with
  the responses collected so far; an exception of the handler ends it.
\<close>

fun game_names_loop ::
  "('g, 'st) env \<Rightarrow> handler \<Rightarrow> message \<Rightarrow> string list \<Rightarrow> string list \<Rightarrow> 'st \<Rightarrow> 'st responses" where
  "game_names_loop e h m [] responses st = Inr (responses, st)"
| "game_names_loop e h m (name # rest) responses st =
     (if name \<noteq> [] then
        (case get_all_responses_with_game e h m (lookup_game_by_name_or_alias e name) st of
           Inl err \<Rightarrow> Inl err
         | Inr (rs, st1) \<Rightarrow> game_names_loop e h m rest (responses @ rs) st1)
      else game_names_loop e h m rest responses st)"

definition GameExtractionMixin_get_all_responses ::
  "('g, 'st) env \<Rightarrow> handler \<Rightarrow> message \<Rightarrow> 'st \<Rightarrow> 'st responses" where
  "GameExtractionMixin_get_all_responses e h m st =
     (let plays = extract_remainder_after_fragments e (fragments h) (content m);
          game_names = split plays multi_game_delimiter
      in if list_ex (\<lambda>name. name \<noteq> []) game_names
         then game_names_loop e h m game_names [] st
         else (case get_all_responses_without_game e h m st of
                 Inl err \<Rightarrow> Inl err
               | Inr (rs, st1) \<Rightarrow> Inr ([] @ rs, st1)))"

subsection \<open>Handlers without a game list\<close>

text \<open>\<^verbatim>\<open>StatusHandler.get_all_responses\<close>: the loop over the catalog.\<close>

fun status_loop ::
  "('g, 'st) env \<Rightarrow> 'g list \<Rightarrow> string list \<Rightarrow> string list \<Rightarrow> 'st \<Rightarrow> string list \<times> string list" where
  "status_loop e [] messages ready_messages st = (messages, ready_messages)"
| "status_loop e (g # gs) messages ready_messages st =
     (let players = get_available_players e g st in
      if players \<noteq> [] then
        status_loop e gs
          (messages @ [game_str e g @ '' has '' @ str_nat (length players)])
          (ready_messages @ get_any_ready_messages e g st) st
      else status_loop e gs messages ready_messages st)"

definition newline :: string where
  "newline = [CHR 0x0A]"

definition StatusHandler_get_all_responses ::
  "('g, 'st) env \<Rightarrow> message \<Rightarrow> 'st \<Rightarrow> 'st responses" where
  "StatusHandler_get_all_responses e m st =
     (case status_loop e (games e) [''Bot alive''] [] st of
        (messages, ready_messages) \<Rightarrow> Inr ([join newline (messages @ ready_messages)], st))"

definition CancelHandler_get_all_responses ::
  "('g, 'st) env \<Rightarrow> message \<Rightarrow> 'st \<Rightarrow> 'st responses" where
  "CancelHandler_get_all_responses e m st =
     (let st1 = cancel_would_plays e (author m) st in
      Inr ([''Cancelled all play requests from '' @ display_name (author m)], st1))"

definition AccidentalRoleMentionHandler_get_all_responses ::
  "('g, 'st) env \<Rightarrow> message \<Rightarrow> 'st \<Rightarrow> 'st responses" where
  "AccidentalRoleMentionHandler_get_all_responses e m st =
     Inr ([''It looks like you tried to @ me but might have accidentally selected the role instead''], st)"

definition QueryGameHandler_get_all_responses ::
  "('g, 'st) env \<Rightarrow> message \<Rightarrow> 'st \<Rightarrow> 'st responses" where
  "QueryGameHandler_get_all_responses e m st =
     Inr ([join newline (map (game_name e) (games e))], st)"

text \<open>
  \<^verbatim>\<open>QueryPropertyHandler.get_all_responses\<close>. Its first three statements read the
  attribute and the game name off the message; unpacking fewer than two words raises
  \<^verbatim>\<open>ValueError\<close>. The rest looks the game up and renders the attribute.
\<close>

definition query_arguments :: "message \<Rightarrow> error + (string \<times> string)" where
  "query_arguments m =
     (case split_by_first_mention m of
        Inl err \<Rightarrow> Inl err
      | Inr (mention, remainder) \<Rightarrow>
          (case split_string_by_keywords (keywords_of QueryPropertyHandler) remainder of
             (found_keyword, remainder1) \<Rightarrow>
               (case take 2 (split remainder1 (CHR '' '')) of
                  [attribute, name] \<Rightarrow> Inr (attribute, name)
                | _ \<Rightarrow> Inl ValueError)))"

definition display_function :: "string \<Rightarrow> attr_value \<Rightarrow> error + string" where
  "display_function attribute v =
     (if attribute = ''aliases'' then
        (case as_strs v of Some z \<Rightarrow> Inr (join '', '' z) | None \<Rightarrow> Inl TypeError)
      else Inr (as_str v))"

definition QueryPropertyHandler_get_all_responses ::
  "('g, 'st) env \<Rightarrow> message \<Rightarrow> 'st \<Rightarrow> 'st responses" where
  "QueryPropertyHandler_get_all_responses e m st =
     (case query_arguments m of
        Inl err \<Rightarrow> Inl err
      | Inr (attribute, name) \<Rightarrow>
          (let g = lookup_game_by_name_or_alias e name in
           case game_getattr e g attribute of
             None \<Rightarrow> Inl AttributeError
           | Some v \<Rightarrow>
               (case display_function attribute v of
                  Inl err \<Rightarrow> Inl err
                | Inr d \<Rightarrow> Inr ([attribute @ '': '' @ d], st))))"

text \<open>\<^verbatim>\<open>get_all_responses\<close> of each handler class.\<close>

fun get_all_responses ::
  "('g, 'st) env \<Rightarrow> handler \<Rightarrow> message \<Rightarrow> 'st \<Rightarrow> 'st responses" where
  "get_all_responses e StatusHandler m st = StatusHandler_get_all_responses e m st"
| "get_all_responses e CancelHandler m st = CancelHandler_get_all_responses e m st"
| "get_all_responses e AccidentalRoleMentionHandler m st =
     AccidentalRoleMentionHandler_get_all_responses e m st"
| "get_all_responses e QueryGameHandler m st = QueryGameHandler_get_all_responses e m st"
| "get_all_responses e QueryPropertyHandler m st = QueryPropertyHandler_get_all_responses e m st"
| "get_all_responses e h m st = GameExtractionMixin_get_all_responses e h m st"

section \<open>A catalog and a roster store for concrete runs\<close>

text \<open>
  The theorems below hold for every \<open>env\<close>. To run the handlers on concrete messages
  the collaborators need values: a catalog of two games, a roster store that keeps the
  would-play records in a list, and a text extraction. None of their code is among the
  sources, so each is written after the specification.
\<close>

datatype catalog_game = Chess | Go

text \<open>Modelled from the spec: a game of the catalog has a canonical name, aliases and
  a number of players that makes it ready; the class \<^verbatim>\<open>Game\<close> is missing.\<close>

fun canonical_name :: "catalog_game \<Rightarrow> string" where
  "canonical_name Chess = ''Chess''"
| "canonical_name Go = ''Go''"

fun aliases :: "catalog_game \<Rightarrow> string list" where
  "aliases Chess = [''chess'']"
| "aliases Go = [''go'', ''baduk'']"

definition min_players :: "catalog_game \<Rightarrow> nat" where
  "min_players g = 2"

definition catalog :: "catalog_game list" where
  "catalog = [Chess, Go]"

text \<open>Modelled from the spec: \<^verbatim>\<open>lookup_game_by_name_or_alias\<close> of the missing module
  \<^verbatim>\<open>game\<close> matches the canonical names first, then the aliases, without regard to
  case; an unknown name gives no game.\<close>

definition catalog_lookup :: "string \<Rightarrow> catalog_game option" where
  "catalog_lookup n =
     (case List.find (\<lambda>g. lower (canonical_name g) = lower n) catalog of
        Some g \<Rightarrow> Some g
      | None \<Rightarrow> List.find (\<lambda>g. lower n \<in> set (map lower (aliases g))) catalog)"

text \<open>Modelled from the spec: the attributes of a game that \<^verbatim>\<open>getattr\<close> finds, its
  name and its aliases; \<^verbatim>\<open>None\<close> has neither. The class \<^verbatim>\<open>Game\<close> is missing.\<close>

definition catalog_getattr :: "catalog_game option \<Rightarrow> string \<Rightarrow> attr_value option" where
  "catalog_getattr g attribute =
     (case g of
        None \<Rightarrow> None
      | Some gm \<Rightarrow>
          if attribute = ''name''
          then Some \<lparr>as_str = canonical_name gm, as_strs = None\<rparr>
          else if attribute = ''aliases''
          then Some \<lparr>as_str = join '', '' (aliases gm), as_strs = Some (aliases gm)\<rparr>
          else None)"

text \<open>Modelled from the spec: the roster store of the missing module \<^verbatim>\<open>db\<close> keeps
  would-play records, each with the instant it was made at; \<open>clock\<close> is the instant of the
  message being handled.\<close>

record roster =
  would_plays :: "(nat \<times> player \<times> catalog_game) list"
  clock :: nat

definition record_of :: "nat \<times> player \<times> catalog_game \<Rightarrow> catalog_game would_play" where
  "record_of r = \<lparr>user = fst (snd r), game = snd (snd r)\<rparr>"

text \<open>Modelled from the spec: \<^verbatim>\<open>db.record_would_play\<close> records the intent of a player
  for a game and returns the record; without a game there is nothing to record.\<close>

definition store_record_would_play ::
  "player \<Rightarrow> catalog_game option \<Rightarrow> roster \<Rightarrow> error + (catalog_game would_play \<times> roster)" where
  "store_record_would_play p g st =
     (case g of
        None \<Rightarrow> Inl StoreError
      | Some gm \<Rightarrow>
          Inr (\<lparr>user = p, game = gm\<rparr>,
               st\<lparr>would_plays := would_plays st @ [(clock st, p, gm)]\<rparr>))"

text \<open>Modelled from the spec: \<^verbatim>\<open>db.get_last_would_play\<close> returns the most recent
  record of the game, of any game when none is given.\<close>

definition store_get_last_would_play ::
  "catalog_game option \<Rightarrow> roster \<Rightarrow> catalog_game would_play option" where
  "store_get_last_would_play g st =
     (case filter (\<lambda>r. g = None \<or> g = Some (snd (snd r))) (would_plays st) of
        [] \<Rightarrow> None
      | r # rs \<Rightarrow> Some (record_of (last (r # rs))))"

text \<open>Modelled from the spec: \<^verbatim>\<open>db.get_last_would_plays_at_same_time\<close> returns all
  records that share the most recent instant, across games.\<close>

definition store_get_last_would_plays_at_same_time ::
  "roster \<Rightarrow> catalog_game would_play list" where
  "store_get_last_would_plays_at_same_time st =
     (let latest = fold max (map fst (would_plays st)) 0 in
      map record_of (filter (\<lambda>r. fst r = latest) (would_plays st)))"

text \<open>Modelled from the spec: \<^verbatim>\<open>db.clear_game\<close> empties the roster of a game and
  \<^verbatim>\<open>db.cancel_would_plays\<close> removes the records of a player.\<close>

definition store_clear_game :: "catalog_game \<Rightarrow> roster \<Rightarrow> roster" where
  "store_clear_game g st = st\<lparr>would_plays := filter (\<lambda>r. snd (snd r) \<noteq> g) (would_plays st)\<rparr>"

definition store_cancel_would_plays :: "player \<Rightarrow> roster \<Rightarrow> roster" where
  "store_cancel_would_plays p st = st\<lparr>would_plays := filter (\<lambda>r. fst (snd r) \<noteq> p) (would_plays st)\<rparr>"

text \<open>Modelled from the spec: the available players of a game are the players with a
  record for it, each once; the game is ready when they are as many as it needs, and
  then announces so. The methods of the class \<^verbatim>\<open>Game\<close> are missing.\<close>

definition available_players :: "catalog_game \<Rightarrow> roster \<Rightarrow> player list" where
  "available_players g st =
     remdups (map (\<lambda>r. fst (snd r)) (filter (\<lambda>r. snd (snd r) = g) (would_plays st)))"

definition ready_to_play :: "catalog_game \<Rightarrow> roster \<Rightarrow> bool" where
  "ready_to_play g st = (min_players g \<le> length (available_players g st))"

definition ready_messages :: "catalog_game \<Rightarrow> roster \<Rightarrow> string list" where
  "ready_messages g st =
     [join '','' (map create_mention (available_players g st)) @ '' are ready to play '' @
      canonical_name g]"

text \<open>Modelled from the spec: \<^verbatim>\<open>extract_remainder_after_fragments\<close> of the missing
  module \<^verbatim>\<open>utils\<close>. The specification describes it on a content that starts with a
  fragment, without regard to case (that fragment is removed and the rest trimmed), and
  on a content with no fragment (returned as it is); its Ping scenario hands it a content
  whose keyword follows the mention of the bot and expects the game name. The model
  covers the three: the first fragment that the content starts with is removed; failing
  that, the first fragment that the text after the leading mention starts with is
  removed together with the mention; failing that, the content comes back as it is.\<close>

fun remainder_after_prefix :: "string list \<Rightarrow> string \<Rightarrow> string option" where
  "remainder_after_prefix [] c = None"
| "remainder_after_prefix (f # fs) c =
     (if startswith (lower c) (lower f) then Some (strip (drop (length f) c))
      else remainder_after_prefix fs c)"

definition remainder_after_fragments :: "string list \<Rightarrow> string \<Rightarrow> string" where
  "remainder_after_fragments fs c =
     (case remainder_after_prefix fs c of
        Some r \<Rightarrow> r
      | None \<Rightarrow>
          (if startswith c ''<@'' then
             (case index c (CHR ''>'') of
                None \<Rightarrow> c
              | Some i \<Rightarrow>
                  (case remainder_after_prefix fs (strip (drop (i + 1) c)) of
                     Some r \<Rightarrow> r
                   | None \<Rightarrow> c))
           else c))"

definition register_bot :: "(catalog_game, roster) env" where
  "register_bot =
     \<lparr>CLIENT_ID = Some ''123'',
      extract_remainder_after_fragments = remainder_after_fragments,
      lookup_game_by_name_or_alias = catalog_lookup,
      games = catalog,
      game_str = canonical_name,
      game_name = canonical_name,
      game_getattr = catalog_getattr,
      get_available_players = available_players,
      is_ready_to_play = ready_to_play,
      get_ready_messages = ready_messages,
      get_players_for_next_game = available_players,
      user_str = display_name,
      record_would_play = store_record_would_play,
      get_last_would_play = store_get_last_would_play,
      get_last_would_plays_at_same_time = store_get_last_would_plays_at_same_time,
      clear_game = store_clear_game,
      cancel_would_plays = store_cancel_would_plays,
      set_iteration = remdups\<rparr>"

definition alice :: player where
  "alice = \<lparr>ident = 1, display_name = ''Alice''\<rparr>"

definition bob :: player where
  "bob = \<lparr>ident = 2, display_name = ''Bob''\<rparr>"

definition says :: "player \<Rightarrow> string \<Rightarrow> message" where
  "says p c = \<lparr>content = c, clean_content = c, author = p\<rparr>"

definition empty_roster :: roster where
  "empty_roster = \<lparr>would_plays = [], clock = 0\<rparr>"

section \<open>Notions the properties are stated with\<close>

text \<open>The handler classes that inherit \<^verbatim>\<open>MentionMessageHandler.should_handle\<close>.\<close>

definition mention_handlers :: "handler list" where
  "mention_handlers =
     [StatusHandler, ClearHandler, CancelHandler, PingHandler, QueryGameHandler,
      QueryPropertyHandler]"

text \<open>The handler classes that inherit from \<^verbatim>\<open>GameExtractionMixin\<close>.\<close>

definition multi_game_handlers :: "handler list" where
  "multi_game_handlers = [WouldPlayHandler, SameHandler, ClearHandler, PingHandler]"

text \<open>
  The candidates of a message for a handler: the local variable \<^verbatim>\<open>game_names\<close> of
  \<^verbatim>\<open>GameExtractionMixin.get_all_responses\<close>.
\<close>

definition game_names :: "('g, 'st) env \<Rightarrow> handler \<Rightarrow> message \<Rightarrow> string list" where
  "game_names e h m =
     split (extract_remainder_after_fragments e (fragments h) (content m)) multi_game_delimiter"

text \<open>
  What it is to invoke a response generator once per element of a list, from left to
  right, and to concatenate the results: each invocation starts in the state the one before
  it left, and the first exception ends the run.
\<close>

fun responses_in_turn :: "('a \<Rightarrow> 'st \<Rightarrow> 'st responses) \<Rightarrow> 'a list \<Rightarrow> 'st \<Rightarrow> 'st responses" where
  "responses_in_turn f [] st = Inr ([], st)"
| "responses_in_turn f (x # xs) st =
     (case f x st of
        Inl err \<Rightarrow> Inl err
      | Inr (rs, st1) \<Rightarrow>
          (case responses_in_turn f xs st1 of
             Inl err \<Rightarrow> Inl err
           | Inr (rs', st2) \<Rightarrow> Inr (rs @ rs', st2)))"

text \<open>
  What it is for the Same handler to record the intent of a player for one game and to
  announce it: one call of the store, one line of response.
\<close>

definition record_and_announce ::
  "('g, 'st) env \<Rightarrow> player \<Rightarrow> 'g \<Rightarrow> 'st \<Rightarrow> 'st responses" where
  "record_and_announce e p g st =
     (case record_would_play e p (Some g) st of
        Inl err \<Rightarrow> Inl err
      | Inr (wp, st1) \<Rightarrow> Inr ([would_play_line e '' would also play '' wp g st1], st1))"

section \<open>Facts about the string functions\<close>

lemma index_None_iff: "index s c = None \<longleftrightarrow> c \<notin> set s"
  by (induction s) auto


lemma startswith_take: "startswith s p \<longleftrightarrow> take (length p) s = p"
  by (induction s p rule: startswith.induct) auto

lemma startswith_append: "startswith a p \<Longrightarrow> startswith (a @ b) p"
  by (induction a p rule: startswith.induct) auto

text \<open>
  \<open>drop_leading\<close> removes elements of the list from the front, and what it returns
  starts with none of them.
\<close>

lemma drop_leading_decompose:
  "\<exists>pre. s = concat pre @ drop_leading ws s \<and> set pre \<subseteq> set ws"
proof (induction ws s rule: drop_leading.induct)
  case (1 ws)
  have "[] = concat [] @ drop_leading ws [] \<and> set [] \<subseteq> set ws" by simp
  then show ?case by blast
next
  case (2 ws c s)
  consider (one) "[c] \<in> set ws"
    | (two) "[c] \<notin> set ws" "c # take 1 s \<in> set ws"
    | (three) "[c] \<notin> set ws" "c # take 1 s \<notin> set ws" "c # take 2 s \<in> set ws"
    | (none) "[c] \<notin> set ws" "c # take 1 s \<notin> set ws" "c # take 2 s \<notin> set ws"
    by blast
  then show ?case
  proof cases
    case one
    from 2(1) [OF one] obtain pre
      where p: "s = concat pre @ drop_leading ws s" "set pre \<subseteq> set ws" by blast
    have "c # s = concat ([c] # pre) @ drop_leading ws (c # s)"
      using one p(1) by simp
    moreover have "set ([c] # pre) \<subseteq> set ws" using one p(2) by simp
    ultimately show ?thesis by blast
  next
    case two
    from 2(2) [OF two] obtain pre
      where p: "drop 1 s = concat pre @ drop_leading ws (drop 1 s)" "set pre \<subseteq> set ws"
      by blast
    have "c # s = (c # take 1 s) @ drop 1 s" by simp
    with p(1) have "c # s = concat ((c # take 1 s) # pre) @ drop_leading ws (drop 1 s)"
      by simp
    then have "c # s = concat ((c # take 1 s) # pre) @ drop_leading ws (c # s)"
      using two by simp
    moreover have "set ((c # take 1 s) # pre) \<subseteq> set ws" using two p(2) by simp
    ultimately show ?thesis by blast
  next
    case three
    from 2(3) [OF three] obtain pre
      where p: "drop 2 s = concat pre @ drop_leading ws (drop 2 s)" "set pre \<subseteq> set ws"
      by blast
    have "c # s = (c # take 2 s) @ drop 2 s" by simp
    with p(1) have "c # s = concat ((c # take 2 s) # pre) @ drop_leading ws (drop 2 s)"
      by simp
    then have "c # s = concat ((c # take 2 s) # pre) @ drop_leading ws (c # s)"
      using three by simp
    moreover have "set ((c # take 2 s) # pre) \<subseteq> set ws" using three p(2) by simp
    ultimately show ?thesis by blast
  next
    case none
    then have "c # s = concat [] @ drop_leading ws (c # s) \<and> set [] \<subseteq> set ws"
      by simp
    then show ?thesis by blast
  qed
qed

lemma drop_leading_no_lead:
  assumes len: "\<forall>w \<in> set ws. 1 \<le> length w \<and> length w \<le> 3"
  shows "\<not> (\<exists>w \<in> set ws. startswith (drop_leading ws s) w)"
  using len
proof (induction ws s rule: drop_leading.induct)
  case (1 ws)
  show ?case
  proof
    assume "\<exists>w \<in> set ws. startswith (drop_leading ws []) w"
    then obtain w where w: "w \<in> set ws" "startswith [] w" by auto
    from w(2) have "w = []" by (cases w) simp_all
    moreover from 1 w(1) have "1 \<le> length w" by blast
    ultimately show False by simp
  qed
next
  case (2 ws c s)
  consider (one) "[c] \<in> set ws"
    | (two) "[c] \<notin> set ws" "c # take 1 s \<in> set ws"
    | (three) "[c] \<notin> set ws" "c # take 1 s \<notin> set ws" "c # take 2 s \<in> set ws"
    | (none) "[c] \<notin> set ws" "c # take 1 s \<notin> set ws" "c # take 2 s \<notin> set ws"
    by blast
  then show ?case
  proof cases
    case one
    with 2(1) [OF one 2(4)] show ?thesis by simp
  next
    case two
    with 2(2) [OF two 2(4)] show ?thesis by simp
  next
    case three
    with 2(3) [OF three 2(4)] show ?thesis by simp
  next
    case none
    show ?thesis
    proof
      assume "\<exists>w \<in> set ws. startswith (drop_leading ws (c # s)) w"
      with none obtain w where w: "w \<in> set ws" "startswith (c # s) w" by auto
      from w(2) have t: "take (length w) (c # s) = w" by (simp add: startswith_take)
      from w(1) 2(4) have "length w = 1 \<or> length w = 2 \<or> length w = 3" by force
      then show False
      proof (elim disjE)
        assume "length w = 1"
        with t have "w = [c]" by simp
        with w(1) none(1) show False by simp
      next
        assume "length w = 2"
        with t have "w = c # take 1 s" by (simp add: numeral_2_eq_2)
        with w(1) none(2) show False by simp
      next
        assume "length w = 3"
        with t have "w = c # take 2 s" by (simp add: numeral_3_eq_3 numeral_2_eq_2)
        with w(1) none(3) show False by simp
      qed
    qed
  qed
qed

lemma whitespace_lengths: "\<forall>w \<in> set whitespace. 1 \<le> length w \<and> length w \<le> 3"
  by (simp add: whitespace_def)

text \<open>
  \<open>strip\<close> removes whitespace characters from the two ends and nothing else: what it
  returns neither starts nor ends with a whitespace character.
\<close>

lemma strip_decompose:
  "\<exists>pre post. s = concat pre @ strip s @ concat post \<and>
     set pre \<subseteq> set whitespace \<and> set post \<subseteq> set whitespace"
proof -
  let ?t = "drop_leading whitespace s"
  obtain pre where p: "s = concat pre @ ?t" "set pre \<subseteq> set whitespace"
    using drop_leading_decompose [of s whitespace] by blast
  obtain q where q: "rev ?t = concat q @ rev (strip s)" "set q \<subseteq> set (map rev whitespace)"
    using drop_leading_decompose [of "rev ?t" "map rev whitespace"]
    by (auto simp: strip_def)
  from q(1) have "rev (rev ?t) = rev (concat q @ rev (strip s))" by simp
  then have t: "?t = strip s @ concat (map rev (rev q))"
    by (simp add: rev_concat)
  have "set (map rev (rev q)) \<subseteq> set whitespace"
    using q(2) by auto
  with p t show ?thesis by metis
qed

lemma strip_ends:
  "\<not> (\<exists>w \<in> set whitespace. startswith (strip s) w) \<and>
   \<not> (\<exists>w \<in> set whitespace. startswith (rev (strip s)) (rev w))"
proof -
  let ?t = "drop_leading whitespace s"
  have t: "\<not> (\<exists>w \<in> set whitespace. startswith ?t w)"
    using whitespace_lengths by (rule drop_leading_no_lead)
  have "\<forall>w \<in> set (map rev whitespace). 1 \<le> length w \<and> length w \<le> 3"
    using whitespace_lengths by simp
  then have "\<not> (\<exists>w \<in> set (map rev whitespace).
      startswith (drop_leading (map rev whitespace) (rev ?t)) w)"
    by (rule drop_leading_no_lead)
  then have e: "\<not> (\<exists>w \<in> set whitespace. startswith (rev (strip s)) (rev w))"
    by (simp add: strip_def)
  obtain q where "rev ?t = concat q @ rev (strip s)"
    using drop_leading_decompose [of "rev ?t" "map rev whitespace"]
    by (auto simp: strip_def)
  then have "rev (rev ?t) = rev (concat q @ rev (strip s))" by simp
  then have "?t = strip s @ rev (concat q)" by simp
  then have "startswith ?t w" if "startswith (strip s) w" for w
    using that startswith_append [of "strip s" w "rev (concat q)"] by simp
  with t have "\<not> (\<exists>w \<in> set whitespace. startswith (strip s) w)" by blast
  with e show ?thesis by blast
qed

section \<open>Splitting off the first mention\<close>



text \<open>
  The whitespace trimmed is all that Python trims: a no-break space after the mention
  goes as a space does.
\<close>

lemma split_by_first_mention_no_break_space:
  "split_by_first_mention (says alice (''<@!123>'' @ [CHR 0xC2, CHR 0xA0] @ ''ping'')) =
     Inr (''<@!123>'', ''ping'')"
  by (simp add: split_by_first_mention_def says_def strip_def whitespace_def)


text \<open>
  Claim C8. \<open>split_by_first_mention\<close> returns a pair exactly on the contents that do not
  start with \<^verbatim>\<open><@\<close> or that hold a \<^verbatim>\<open>>\<close>. On every other content it raises
  \<^verbatim>\<open>ValueError\<close>, and so does \<open>should_handle\<close> of every mention-triggered
  handler, which is what a dispatcher calls before it runs a handler.
\<close>

theorem split_by_first_mention_partial:
  "((\<exists>p. split_by_first_mention m = Inr p) \<longleftrightarrow>
      (\<not> startswith (content m) ''<@'' \<or> CHR ''>'' \<in> set (content m))) \<and>
   (startswith (content m) ''<@'' \<and> CHR ''>'' \<notin> set (content m) \<longrightarrow>
      split_by_first_mention m = Inl ValueError \<and>
      list_all (\<lambda>h. should_handle e h m = Inl ValueError) mention_handlers)"
proof -
  have none: "index (content m) (CHR ''>'') = None \<longleftrightarrow> CHR ''>'' \<notin> set (content m)"
    by (rule index_None_iff)
  have total: "(\<exists>p. split_by_first_mention m = Inr p) \<longleftrightarrow>
      (\<not> startswith (content m) ''<@'' \<or> CHR ''>'' \<in> set (content m))"
    using none by (auto simp: split_by_first_mention_def Let_def split: option.splits)
  have fails: "split_by_first_mention m = Inl ValueError"
    if "startswith (content m) ''<@'' \<and> CHR ''>'' \<notin> set (content m)"
    using that none by (simp add: split_by_first_mention_def Let_def)
  have "list_all (\<lambda>h. should_handle e h m = Inl ValueError) mention_handlers"
    if "split_by_first_mention m = Inl ValueError"
    using that by (simp add: mention_handlers_def MentionMessageHandler_should_handle_def)
  with total fails show ?thesis by blast
qed

theorem split_by_first_mention_partial_witness:
  "(\<exists>p. split_by_first_mention (says alice ''<@!123> ping'') = Inr p) \<and>
   split_by_first_mention (says alice ''<@123 ping'') = Inl ValueError \<and>
   should_handle register_bot PingHandler (says alice ''<@123 ping'') = Inl ValueError \<and>
   should_handle register_bot QueryPropertyHandler (says alice ''<@123 ping'') = Inl ValueError"
proof -
  have 1: "\<not> startswith (content (says alice ''<@!123> ping'')) ''<@'' \<or>
     CHR ''>'' \<in> set (content (says alice ''<@!123> ping''))"
    by (simp add: says_def)
  have 2: "startswith (content (says alice ''<@123 ping'')) ''<@'' \<and>
     CHR ''>'' \<notin> set (content (says alice ''<@123 ping''))"
    by (simp add: says_def)
  from split_by_first_mention_partial [of "says alice ''<@!123> ping''" register_bot] 1
  have 3: "\<exists>p. split_by_first_mention (says alice ''<@!123> ping'') = Inr p"
    by blast
  from split_by_first_mention_partial [of "says alice ''<@123 ping''" register_bot] 2
  have "split_by_first_mention (says alice ''<@123 ping'') = Inl ValueError \<and>
      list_all (\<lambda>h. should_handle register_bot h (says alice ''<@123 ping'') = Inl ValueError)
        mention_handlers"
    by blast
  with 3 show ?thesis by (simp add: mention_handlers_def)
qed

section \<open>The keyword of a mention-triggered handler\<close>

lemma lower_query: "lower ''query'' = ''query''"
  by (simp add: lower_def lower_char_def)

text \<open>
  Claim C3, as the code has it. Once the mention is split off, the QueryProperty handler
  applies exactly when the mention is the bot's and the remainder starts with
  \<^verbatim>\<open>query\<close>, letter case aside. A \<^verbatim>\<open>query\<close> further to the right does not count.
\<close>

theorem query_should_handle_prefix:
  "split_by_first_mention m = Inr (mention, remainder) \<Longrightarrow>
   should_handle e QueryPropertyHandler m =
     Inr (is_bot_mention e mention \<and> startswith (lower remainder) ''query'')"
  by (simp add: MentionMessageHandler_should_handle_def lower_query)

theorem query_should_handle_prefix_witness:
  "split_by_first_mention (says alice ''<@!123> query aliases chess'') =
     Inr (''<@!123>'', ''query aliases chess'') \<and>
   should_handle register_bot QueryPropertyHandler (says alice ''<@!123> query aliases chess'') =
     Inr True"
proof -
  have s: "split_by_first_mention (says alice ''<@!123> query aliases chess'') =
     Inr (''<@!123>'', ''query aliases chess'')"
    by (simp add: split_by_first_mention_def says_def strip_def whitespace_def)
  have b: "is_bot_mention register_bot ''<@!123>''"
    by (simp add: is_bot_mention_def register_bot_def)
  have l: "startswith (lower ''query aliases chess'') ''query''"
    by (simp add: lower_def lower_char_def)
  from query_should_handle_prefix [OF s, of register_bot] b l s show ?thesis by simp
qed

text \<open>
  Claim C3 as stated fails: the message below starts with a mention of the bot and its
  remainder holds \<^verbatim>\<open>query\<close>, yet the handler does not apply.
\<close>

theorem query_keyword_not_first:
  "split_by_first_mention (says alice ''<@!123> please query aliases chess'') =
     Inr (''<@!123>'', ''please query aliases chess'') \<and>
   is_bot_mention register_bot ''<@!123>'' \<and>
   contains ''please query aliases chess'' ''query'' \<and>
   should_handle register_bot QueryPropertyHandler
     (says alice ''<@!123> please query aliases chess'') = Inr False"
  by (simp add: split_by_first_mention_def says_def strip_def whitespace_def
      is_bot_mention_def register_bot_def MentionMessageHandler_should_handle_def
      lower_def lower_char_def)

text \<open>A keyword that does not occur letter for letter is not removed.\<close>

lemma remove_first_absent: "\<not> contains s k \<Longrightarrow> remove_first s k = s"
  by (induction s) auto

lemma split_string_by_keywords_absent:
  "list_all (\<lambda>k. \<not> contains s k) kws \<Longrightarrow> split_string_by_keywords kws s = (None, s)"
  by (induction kws) (simp_all add: remove_first_absent)

text \<open>
  Claim C9. The message with the capitalised keyword is accepted by \<open>should_handle\<close>,
  which lowers the case; \<open>split_string_by_keywords\<close> finds no \<^verbatim>\<open>query\<close> in its
  remainder and returns it unchanged with no keyword, so the handler reads
  \<^verbatim>\<open>Query\<close> as the attribute and \<^verbatim>\<open>aliases\<close> as the game name. With the keyword
  in lower case the same words give the attribute \<^verbatim>\<open>aliases\<close> and the game
  \<^verbatim>\<open>chess\<close>.
\<close>

theorem query_keyword_case:
  "should_handle register_bot QueryPropertyHandler (says alice ''<@!123> Query aliases chess'') =
     Inr True \<and>
   split_by_first_mention (says alice ''<@!123> Query aliases chess'') =
     Inr (''<@!123>'', ''Query aliases chess'') \<and>
   split_string_by_keywords (keywords_of QueryPropertyHandler) ''Query aliases chess'' =
     (None, ''Query aliases chess'') \<and>
   query_arguments (says alice ''<@!123> Query aliases chess'') = Inr (''Query'', ''aliases'') \<and>
   query_arguments (says alice ''<@!123> query aliases chess'') = Inr (''aliases'', ''chess'')"
proof -
  have s: "split_by_first_mention (says alice ''<@!123> Query aliases chess'') =
     Inr (''<@!123>'', ''Query aliases chess'')"
    by (simp add: split_by_first_mention_def says_def strip_def whitespace_def)
  have s': "split_by_first_mention (says alice ''<@!123> query aliases chess'') =
     Inr (''<@!123>'', ''query aliases chess'')"
    by (simp add: split_by_first_mention_def says_def strip_def whitespace_def)
  have h: "should_handle register_bot QueryPropertyHandler
     (says alice ''<@!123> Query aliases chess'') = Inr True"
    by (simp add: s MentionMessageHandler_should_handle_def is_bot_mention_def
        register_bot_def lower_def lower_char_def)
  have k: "split_string_by_keywords (keywords_of QueryPropertyHandler) ''Query aliases chess'' =
     (None, ''Query aliases chess'')"
    by simp
  have q: "query_arguments (says alice ''<@!123> Query aliases chess'') = Inr (''Query'', ''aliases'')"
    by (simp add: query_arguments_def s strip_def whitespace_def)
  have q': "query_arguments (says alice ''<@!123> query aliases chess'') = Inr (''aliases'', ''chess'')"
    by (simp add: query_arguments_def s' strip_def whitespace_def)
  from h s k q q' show ?thesis by simp
qed

section \<open>Multi-game extraction: the loop\<close>

text \<open>
  The loop over the candidates invokes the response generator of the handler once for
  each candidate that is not empty, in turn, on the game the catalog finds for it.
\<close>

lemma game_names_loop_in_turn:
  "game_names_loop e h m names acc st =
     (case responses_in_turn (\<lambda>n. get_all_responses_with_game e h m (lookup_game_by_name_or_alias e n))
             (filter (\<lambda>n. n \<noteq> []) names) st of
        Inl err \<Rightarrow> Inl err
      | Inr (rs, st1) \<Rightarrow> Inr (acc @ rs, st1))"
proof (induction names arbitrary: acc st)
  case Nil
  show ?case by simp
next
  case (Cons n names)
  show ?case
  proof (cases "n = []")
    case True
    then show ?thesis using Cons.IH by simp
  next
    case False
    show ?thesis
    proof (cases "get_all_responses_with_game e h m (lookup_game_by_name_or_alias e n) st")
      case (Inl err)
      with False show ?thesis by simp
    next
      case (Inr p)
      obtain rs st1 where p: "p = (rs, st1)" by (cases p)
      show ?thesis using False Inr p Cons.IH [of "acc @ rs" st1]
        by (simp split: sum.splits)
    qed
  qed
qed

lemma responses_in_turn_map:
  "responses_in_turn f (map g xs) st = responses_in_turn (\<lambda>x. f (g x)) xs st"
  by (induction xs arbitrary: st) (simp_all split: sum.splits)

lemma mixin_handler:
  "h \<in> set multi_game_handlers \<Longrightarrow>
   get_all_responses e h m st = GameExtractionMixin_get_all_responses e h m st"
  by (auto simp: multi_game_handlers_def)

lemma mixin_some_game:
  assumes "list_ex (\<lambda>n. n \<noteq> []) (game_names e h m)"
  shows "GameExtractionMixin_get_all_responses e h m st =
     responses_in_turn (get_all_responses_with_game e h m)
       (map (lookup_game_by_name_or_alias e) (filter (\<lambda>n. n \<noteq> []) (game_names e h m))) st"
proof -
  have "GameExtractionMixin_get_all_responses e h m st =
      game_names_loop e h m (game_names e h m) [] st"
    using assms by (simp add: GameExtractionMixin_get_all_responses_def game_names_def Let_def)
  also have "\<dots> = responses_in_turn
       (\<lambda>n. get_all_responses_with_game e h m (lookup_game_by_name_or_alias e n))
       (filter (\<lambda>n. n \<noteq> []) (game_names e h m)) st"
    by (simp add: game_names_loop_in_turn split: sum.splits)
  finally show ?thesis by (simp add: responses_in_turn_map)
qed

lemma mixin_no_game:
  assumes "\<not> list_ex (\<lambda>n. n \<noteq> []) (game_names e h m)"
  shows "GameExtractionMixin_get_all_responses e h m st = get_all_responses_without_game e h m st"
  using assms
  by (simp add: GameExtractionMixin_get_all_responses_def game_names_def Let_def
      split: sum.splits)

lemma ping_unresolved_loop:
  assumes "\<exists>n \<in> set names. n \<noteq> [] \<and> lookup_game_by_name_or_alias e n = None"
  shows "game_names_loop e PingHandler m names acc st = Inl AttributeError"
  using assms
proof (induction names arbitrary: acc st)
  case Nil
  then show ?case by simp
next
  case (Cons n names)
  show ?case
  proof (cases "n \<noteq> [] \<and> lookup_game_by_name_or_alias e n = None")
    case True
    then show ?thesis by (simp add: PingHandler_with_game_def)
  next
    case False
    with Cons.prems have "\<exists>n \<in> set names. n \<noteq> [] \<and> lookup_game_by_name_or_alias e n = None"
      by auto
    from Cons.IH [OF this] show ?thesis
      by (cases "lookup_game_by_name_or_alias e n")
        (simp_all add: PingHandler_with_game_def Let_def)
  qed
qed

lemma would_play_unresolved_loop:
  assumes "\<exists>n \<in> set names. n \<noteq> [] \<and> lookup_game_by_name_or_alias e n = None"
  shows "\<exists>err. game_names_loop e WouldPlayHandler m names acc st = Inl err"
  using assms
proof (induction names arbitrary: acc st)
  case Nil
  then show ?case by simp
next
  case (Cons n names)
  show ?case
  proof (cases "n \<noteq> [] \<and> lookup_game_by_name_or_alias e n = None")
    case True
    then show ?thesis
      by (simp add: WouldPlayHandler_with_game_def split: sum.splits prod.splits)
  next
    case False
    with Cons.prems have "\<exists>n \<in> set names. n \<noteq> [] \<and> lookup_game_by_name_or_alias e n = None"
      by auto
    from Cons.IH [OF this] show ?thesis
      by (simp split: sum.splits prod.splits)
  qed
qed

lemma would_play_line_ignores_lookup:
  "would_play_line (e\<lparr>lookup_game_by_name_or_alias := f\<rparr>) = would_play_line e"
  by (simp add: would_play_line_def fun_eq_iff)

lemma get_any_ready_messages_ignores_lookup:
  "get_any_ready_messages (e\<lparr>lookup_game_by_name_or_alias := f\<rparr>) = get_any_ready_messages e"
  by (simp add: get_any_ready_messages_def fun_eq_iff)

lemma with_game_ignores_lookup:
  "get_all_responses_with_game (e\<lparr>lookup_game_by_name_or_alias := f\<rparr>) h m g st =
   get_all_responses_with_game e h m g st"
  by (cases h)
    (simp_all add: WouldPlayHandler_with_game_def SameHandler_with_optional_game_def
      ClearHandler_with_game_def PingHandler_with_game_def would_play_line_ignores_lookup
      get_any_ready_messages_ignores_lookup Let_def
      cong: option.case_cong sum.case_cong prod.case_cong)

lemma responses_in_turn_cong:
  "(\<And>x st. x \<in> set xs \<Longrightarrow> f x st = g x st) \<Longrightarrow>
   responses_in_turn f xs st = responses_in_turn g xs st"
  by (induction xs arbitrary: st) (simp_all split: sum.splits)

section \<open>Multi-game extraction: the handlers\<close>

text \<open>The definitions a concrete run unfolds.\<close>

lemmas run_defs =
  register_bot_def says_def alice_def bob_def empty_roster_def game_names_def
  remainder_after_fragments_def
  multi_game_delimiter_def strip_def whitespace_def lower_def lower_char_def
  catalog_lookup_def catalog_def apostrophe_def rsquo_def

lemmas handler_defs =
  GameExtractionMixin_get_all_responses_def WouldPlayHandler_with_game_def
  SameHandler_with_optional_game_def SameHandler_without_game_def ClearHandler_with_game_def
  PingHandler_with_game_def would_play_line_def get_any_ready_messages_def
  MentionMessageHandler_should_handle_def ContentBasedHandler_should_handle_def
  split_by_first_mention_def is_bot_mention_def

lemmas store_defs =
  store_record_would_play_def store_get_last_would_play_def
  store_get_last_would_plays_at_same_time_def store_clear_game_def
  store_cancel_would_plays_def available_players_def ready_to_play_def ready_messages_def
  min_players_def record_of_def create_mention_def str_nat.simps digit_def

text \<open>
  Claim C4, as the code has it. For each of the four handlers with multi-game extraction:
  when some candidate of the split is not empty, the per-game generator of the handler is
  invoked once for every candidate that is not empty, from left to right, on the game the
  catalog finds for it, and the results are concatenated; when every candidate is empty,
  the no-game generator of the handler gives the responses.
\<close>

theorem multi_game_extraction:
  assumes "h \<in> set multi_game_handlers"
  shows "(list_ex (\<lambda>n. n \<noteq> []) (game_names e h m) \<longrightarrow>
            get_all_responses e h m st =
              responses_in_turn (get_all_responses_with_game e h m)
                (map (lookup_game_by_name_or_alias e)
                   (filter (\<lambda>n. n \<noteq> []) (game_names e h m))) st) \<and>
         (\<not> list_ex (\<lambda>n. n \<noteq> []) (game_names e h m) \<longrightarrow>
            get_all_responses e h m st = get_all_responses_without_game e h m st)"
  using assms by (simp add: mixin_handler mixin_some_game mixin_no_game)

text \<open>
  The example of claim C4: Alice would play chess and go, in that order, one response
  each. And a Same message with no game goes to the no-game generator.
\<close>

theorem multi_game_extraction_witness:
  "game_names register_bot WouldPlayHandler (says alice (''I'' @ apostrophe @ ''d play chess/go'')) =
     [''chess'', ''go''] \<and>
   get_all_responses register_bot WouldPlayHandler
     (says alice (''I'' @ apostrophe @ ''d play chess/go'')) empty_roster =
     Inr ([''Alice would play Chess (that'' @ apostrophe @ ''s 1)'',
           ''Alice would play Go (that'' @ apostrophe @ ''s 1)''],
          \<lparr>would_plays = [(0, alice, Chess), (0, alice, Go)], clock = 0\<rparr>) \<and>
   game_names register_bot SameHandler (says bob ''same'') = [''''] \<and>
   get_all_responses register_bot SameHandler (says bob ''same'') empty_roster =
     get_all_responses_without_game register_bot SameHandler (says bob ''same'') empty_roster"
proof -
  let ?m = "says alice (''I'' @ apostrophe @ ''d play chess/go'')"
  have h: "WouldPlayHandler \<in> set multi_game_handlers" "SameHandler \<in> set multi_game_handlers"
    by (simp_all add: multi_game_handlers_def)
  have n: "game_names register_bot WouldPlayHandler ?m = [''chess'', ''go'']"
    by (simp add: run_defs)
  have n': "game_names register_bot SameHandler (says bob ''same'') = ['''']"
    by (simp add: run_defs)
  have r: "responses_in_turn (get_all_responses_with_game register_bot WouldPlayHandler ?m)
       (map (lookup_game_by_name_or_alias register_bot) [''chess'', ''go'']) empty_roster =
     Inr ([''Alice would play Chess (that'' @ apostrophe @ ''s 1)'',
           ''Alice would play Go (that'' @ apostrophe @ ''s 1)''],
          \<lparr>would_plays = [(0, alice, Chess), (0, alice, Go)], clock = 0\<rparr>)"
    by (simp add: run_defs handler_defs store_defs)
  from multi_game_extraction [OF h(1), of register_bot ?m empty_roster] n r
  have 1: "get_all_responses register_bot WouldPlayHandler ?m empty_roster =
     Inr ([''Alice would play Chess (that'' @ apostrophe @ ''s 1)'',
           ''Alice would play Go (that'' @ apostrophe @ ''s 1)''],
          \<lparr>would_plays = [(0, alice, Chess), (0, alice, Go)], clock = 0\<rparr>)"
    by simp
  from multi_game_extraction [OF h(2), of register_bot "says bob ''same''" empty_roster] n'
  have 2: "get_all_responses register_bot SameHandler (says bob ''same'') empty_roster =
     get_all_responses_without_game register_bot SameHandler (says bob ''same'') empty_roster"
    by simp
  from n n' 1 2 show ?thesis by simp
qed

text \<open>
  Claim C4 as stated fails where a candidate is empty: the remainder \<^verbatim>\<open>chess//go\<close>
  splits into three candidates, the Clear handler answers for two, and one invocation per
  candidate would have answered for three.
\<close>

theorem multi_game_extraction_empty_candidate:
  "game_names register_bot ClearHandler (says alice ''<@!123> clear chess//go'') =
     [''chess'', '''', ''go''] \<and>
   get_all_responses register_bot ClearHandler (says alice ''<@!123> clear chess//go'')
     empty_roster = Inr ([''Cleared Chess'', ''Cleared Go''], empty_roster) \<and>
   responses_in_turn
     (get_all_responses_with_game register_bot ClearHandler
        (says alice ''<@!123> clear chess//go''))
     (map (lookup_game_by_name_or_alias register_bot)
        (game_names register_bot ClearHandler (says alice ''<@!123> clear chess//go'')))
     empty_roster =
     Inr ([''Cleared Chess'', ''No game specified!'', ''Cleared Go''], empty_roster)"
  by (simp add: run_defs handler_defs store_defs)

text \<open>
  Claim C10. When some candidate is not empty, the responses are those of one invocation
  per candidate that is not empty, in turn; an empty candidate adds no response and its
  catalog lookup is never made, since the responses stay the same whatever the catalog
  would return for the empty name.
\<close>

theorem empty_candidates_skipped:
  assumes h: "h \<in> set multi_game_handlers"
    and ne: "list_ex (\<lambda>n. n \<noteq> []) (game_names e h m)"
  shows "get_all_responses e h m st =
           responses_in_turn
             (\<lambda>n. get_all_responses_with_game e h m (lookup_game_by_name_or_alias e n))
             (filter (\<lambda>n. n \<noteq> []) (game_names e h m)) st \<and>
         get_all_responses
           (e\<lparr>lookup_game_by_name_or_alias := (lookup_game_by_name_or_alias e)('''' := x)\<rparr>)
           h m st = get_all_responses e h m st"
proof -
  let ?e = "e\<lparr>lookup_game_by_name_or_alias := (lookup_game_by_name_or_alias e)('''' := x)\<rparr>"
  let ?names = "filter (\<lambda>n. n \<noteq> []) (game_names e h m)"
  have gn: "game_names ?e h m = game_names e h m"
    by (simp add: game_names_def)
  have a: "get_all_responses e h m st =
      responses_in_turn
        (\<lambda>n. get_all_responses_with_game e h m (lookup_game_by_name_or_alias e n)) ?names st"
    using h ne by (simp add: mixin_handler mixin_some_game responses_in_turn_map)
  have ne': "list_ex (\<lambda>n. n \<noteq> []) (game_names ?e h m)"
    using ne by (simp only: gn)
  have "get_all_responses ?e h m st = GameExtractionMixin_get_all_responses ?e h m st"
    using h by (rule mixin_handler)
  also have "\<dots> = responses_in_turn (get_all_responses_with_game ?e h m)
       (map (lookup_game_by_name_or_alias ?e)
          (filter (\<lambda>n. n \<noteq> []) (game_names ?e h m))) st"
    using ne' by (rule mixin_some_game)
  also have "\<dots> = responses_in_turn
        (\<lambda>n. get_all_responses_with_game ?e h m (lookup_game_by_name_or_alias ?e n)) ?names st"
    by (simp only: responses_in_turn_map gn)
  also have "\<dots> = responses_in_turn
        (\<lambda>n. get_all_responses_with_game e h m (lookup_game_by_name_or_alias e n)) ?names st"
    by (rule responses_in_turn_cong) (simp add: with_game_ignores_lookup)
  finally show ?thesis using a by simp
qed

text \<open>
  A remainder with a leading, a doubled and a trailing delimiter: five candidates, two
  responses, also with a catalog that knows a game for the empty name.
\<close>

theorem empty_candidates_skipped_witness:
  "game_names register_bot ClearHandler (says alice ''<@!123> clear /chess//go/'') =
     ['''', ''chess'', '''', ''go'', ''''] \<and>
   get_all_responses register_bot ClearHandler (says alice ''<@!123> clear /chess//go/'')
     empty_roster = Inr ([''Cleared Chess'', ''Cleared Go''], empty_roster) \<and>
   get_all_responses
     (register_bot\<lparr>lookup_game_by_name_or_alias := catalog_lookup('''' := Some Go)\<rparr>)
     ClearHandler (says alice ''<@!123> clear /chess//go/'') empty_roster =
     Inr ([''Cleared Chess'', ''Cleared Go''], empty_roster)"
proof -
  let ?m = "says alice ''<@!123> clear /chess//go/''"
  have h: "ClearHandler \<in> set multi_game_handlers"
    by (simp add: multi_game_handlers_def)
  have n: "game_names register_bot ClearHandler ?m = ['''', ''chess'', '''', ''go'', '''']"
    by (simp add: run_defs)
  have l: "lookup_game_by_name_or_alias register_bot = catalog_lookup"
    by (simp add: register_bot_def)
  have r: "responses_in_turn
      (\<lambda>n. get_all_responses_with_game register_bot ClearHandler ?m
             (lookup_game_by_name_or_alias register_bot n))
      [''chess'', ''go''] empty_roster =
     Inr ([''Cleared Chess'', ''Cleared Go''], empty_roster)"
    by (simp add: run_defs handler_defs store_defs)
  from empty_candidates_skipped [OF h, of register_bot ?m empty_roster "Some Go"] n r l
  show ?thesis by simp
qed

section \<open>Clear without a game, Ping with an unknown game\<close>

text \<open>
  Claim C1. It asks for the response \<^verbatim>\<open>No game specified!\<close> when no game name follows
  the keyword. The Clear handler has that response, for a name the catalog does not know.
  With no name at all every candidate is empty, the no-game generator runs, the Clear
  handler does not override it, and there is no response.
\<close>

theorem clear_without_game:
  assumes "\<not> list_ex (\<lambda>n. n \<noteq> []) (game_names e ClearHandler m)"
  shows "get_all_responses e ClearHandler m st = Inr ([], st)"
  using assms by (simp add: mixin_no_game)

theorem clear_without_game_witness:
  "should_handle register_bot ClearHandler (says alice ''<@!123> clear'') = Inr True \<and>
   game_names register_bot ClearHandler (says alice ''<@!123> clear'') = [''''] \<and>
   get_all_responses register_bot ClearHandler (says alice ''<@!123> clear'') empty_roster =
     Inr ([], empty_roster) \<and>
   game_names register_bot ClearHandler (says alice ''<@!123> clear /'') = ['''', ''''] \<and>
   get_all_responses register_bot ClearHandler (says alice ''<@!123> clear /'') empty_roster =
     Inr ([], empty_roster)"
proof -
  have s: "should_handle register_bot ClearHandler (says alice ''<@!123> clear'') = Inr True"
    by (simp add: run_defs handler_defs)
  have n: "game_names register_bot ClearHandler (says alice ''<@!123> clear'') = ['''']"
    by (simp add: run_defs)
  have n': "game_names register_bot ClearHandler (says alice ''<@!123> clear /'') = ['''', '''']"
    by (simp add: run_defs)
  from clear_without_game [of register_bot "says alice ''<@!123> clear''" empty_roster] n
  have 1: "get_all_responses register_bot ClearHandler (says alice ''<@!123> clear'')
     empty_roster = Inr ([], empty_roster)"
    by simp
  from clear_without_game [of register_bot "says alice ''<@!123> clear /''" empty_roster] n'
  have 2: "get_all_responses register_bot ClearHandler (says alice ''<@!123> clear /'')
     empty_roster = Inr ([], empty_roster)"
    by simp
  from s n n' 1 2 show ?thesis by simp
qed

text \<open>The response is there for a name that the catalog does not resolve.\<close>

lemma clear_unknown_game:
  "get_all_responses register_bot ClearHandler (says alice ''<@!123> clear mahjong'')
     empty_roster = Inr ([''No game specified!''], empty_roster)"
  by (simp add: run_defs handler_defs)

text \<open>
  Claim C2. It asks every handler to complete on a game name that the catalog does not
  resolve. The Ping handler calls a method of the game it was given and raises
  \<^verbatim>\<open>AttributeError\<close> on \<^verbatim>\<open>None\<close>; the WouldPlay handler raises as well, in the store
  or on its own call of a method of the game.
\<close>

theorem unresolved_game_raises:
  "((\<exists>n \<in> set (game_names e PingHandler m).
        n \<noteq> [] \<and> lookup_game_by_name_or_alias e n = None) \<longrightarrow>
      get_all_responses e PingHandler m st = Inl AttributeError) \<and>
   ((\<exists>n \<in> set (game_names e WouldPlayHandler m).
        n \<noteq> [] \<and> lookup_game_by_name_or_alias e n = None) \<longrightarrow>
      (\<exists>err. get_all_responses e WouldPlayHandler m st = Inl err))"
proof (intro conjI impI)
  assume a: "\<exists>n \<in> set (game_names e PingHandler m).
     n \<noteq> [] \<and> lookup_game_by_name_or_alias e n = None"
  then have ne: "list_ex (\<lambda>n. n \<noteq> []) (game_names e PingHandler m)"
    by (auto simp: list_ex_iff)
  show "get_all_responses e PingHandler m st = Inl AttributeError"
    using ne ping_unresolved_loop [OF a, of m "[]" st]
    by (simp add: GameExtractionMixin_get_all_responses_def game_names_def Let_def)
next
  assume a: "\<exists>n \<in> set (game_names e WouldPlayHandler m).
     n \<noteq> [] \<and> lookup_game_by_name_or_alias e n = None"
  then have ne: "list_ex (\<lambda>n. n \<noteq> []) (game_names e WouldPlayHandler m)"
    by (auto simp: list_ex_iff)
  show "\<exists>err. get_all_responses e WouldPlayHandler m st = Inl err"
    using ne would_play_unresolved_loop [OF a, of m "[]" st]
    by (simp add: GameExtractionMixin_get_all_responses_def game_names_def Let_def)
qed

theorem unresolved_game_raises_witness:
  "should_handle register_bot PingHandler (says alice ''<@!123> ping mahjong'') = Inr True \<and>
   game_names register_bot PingHandler (says alice ''<@!123> ping mahjong'') = [''mahjong''] \<and>
   lookup_game_by_name_or_alias register_bot ''mahjong'' = None \<and>
   get_all_responses register_bot PingHandler (says alice ''<@!123> ping mahjong'')
     empty_roster = Inl AttributeError \<and>
   (\<exists>err. get_all_responses register_bot WouldPlayHandler
      (says alice (''I'' @ apostrophe @ ''d play mahjong'')) empty_roster = Inl err)"
proof -
  let ?m = "says alice ''<@!123> ping mahjong''"
  let ?w = "says alice (''I'' @ apostrophe @ ''d play mahjong'')"
  have s: "should_handle register_bot PingHandler ?m = Inr True"
    by (simp add: run_defs handler_defs)
  have n: "game_names register_bot PingHandler ?m = [''mahjong'']"
    by (simp add: run_defs)
  have n': "game_names register_bot WouldPlayHandler ?w = [''mahjong'']"
    by (simp add: run_defs)
  have l: "lookup_game_by_name_or_alias register_bot ''mahjong'' = None"
    by (simp add: run_defs)
  from unresolved_game_raises [of register_bot ?m empty_roster] n l
  have 1: "get_all_responses register_bot PingHandler ?m empty_roster = Inl AttributeError"
    by simp
  from unresolved_game_raises [of register_bot ?w empty_roster] n' l
  have 2: "\<exists>err. get_all_responses register_bot WouldPlayHandler ?w empty_roster = Inl err"
    by simp
  from s n l 1 2 show ?thesis by simp
qed

section \<open>Status\<close>

lemma join_Cons: "join sep (x # xs) = x @ (if xs = [] then [] else sep @ join sep xs)"
  by (cases xs) simp_all

lemma status_loop_filter:
  "status_loop e gs ms rs st =
     (ms @ map (\<lambda>g. game_str e g @ '' has '' @ str_nat (length (get_available_players e g st)))
             (filter (\<lambda>g. get_available_players e g st \<noteq> []) gs),
      rs @ concat (map (\<lambda>g. get_any_ready_messages e g st)
             (filter (\<lambda>g. get_available_players e g st \<noteq> []) gs)))"
  by (induction gs arbitrary: ms rs) (simp_all add: Let_def)

lemma concat_ready_messages:
  "concat (map (\<lambda>g. get_any_ready_messages e g st) gs) =
   concat (map (\<lambda>g. get_ready_messages e g st) (filter (\<lambda>g. is_ready_to_play e g st) gs))"
  by (induction gs) (simp_all add: get_any_ready_messages_def)

text \<open>
  Claim C7. Whatever the message and the roster, the Status handler returns one string and
  leaves the store as it is. The string is the lines joined by line feeds: first
  \<^verbatim>\<open>Bot alive\<close>, then one line with the player count for each game of the catalog
  that has an available player, in the order of the catalog, then the readiness messages
  of those of these games that are ready.
\<close>

theorem status_response:
  "get_all_responses e StatusHandler m st =
     Inr ([join newline
             (''Bot alive'' #
              map (\<lambda>g. game_str e g @ '' has '' @ str_nat (length (get_available_players e g st)))
                (filter (\<lambda>g. get_available_players e g st \<noteq> []) (games e)) @
              concat (map (\<lambda>g. get_ready_messages e g st)
                (filter (\<lambda>g. is_ready_to_play e g st)
                   (filter (\<lambda>g. get_available_players e g st \<noteq> []) (games e)))))], st) \<and>
   (\<exists>rest. get_all_responses e StatusHandler m st = Inr ([''Bot alive'' @ rest], st))"
proof -
  have a: "get_all_responses e StatusHandler m st =
     Inr ([join newline
             (''Bot alive'' #
              map (\<lambda>g. game_str e g @ '' has '' @ str_nat (length (get_available_players e g st)))
                (filter (\<lambda>g. get_available_players e g st \<noteq> []) (games e)) @
              concat (map (\<lambda>g. get_ready_messages e g st)
                (filter (\<lambda>g. is_ready_to_play e g st)
                   (filter (\<lambda>g. get_available_players e g st \<noteq> []) (games e)))))], st)"
    by (simp add: StatusHandler_get_all_responses_def status_loop_filter
        concat_ready_messages)
  then have "\<exists>rest. get_all_responses e StatusHandler m st = Inr ([''Bot alive'' @ rest], st)"
    by (simp only: join_Cons) blast
  with a show ?thesis by blast
qed

text \<open>A status request with two players for chess and one for go, and one on an empty roster.\<close>

theorem status_response_witness:
  "should_handle register_bot StatusHandler (says bob ''<@!123> status'') = Inr True \<and>
   get_all_responses register_bot StatusHandler (says bob ''<@!123> status'')
     \<lparr>would_plays = [(0, alice, Chess), (0, bob, Chess), (0, alice, Go)], clock = 1\<rparr> =
     Inr ([''Bot alive'' @ newline @ ''Chess has 2'' @ newline @ ''Go has 1'' @ newline @
           ''<@!1>,<@!2> are ready to play Chess''],
          \<lparr>would_plays = [(0, alice, Chess), (0, bob, Chess), (0, alice, Go)], clock = 1\<rparr>) \<and>
   get_all_responses register_bot StatusHandler (says bob ''<@!123> status'') empty_roster =
     Inr ([''Bot alive''], empty_roster)"
proof -
  let ?st = "\<lparr>would_plays = [(0, alice, Chess), (0, bob, Chess), (0, alice, Go)], clock = 1\<rparr>"
  let ?m = "says bob ''<@!123> status''"
  have s: "should_handle register_bot StatusHandler ?m = Inr True"
    by (simp add: run_defs handler_defs)
  from status_response [of register_bot ?m ?st]
  have 1: "get_all_responses register_bot StatusHandler ?m ?st =
     Inr ([''Bot alive'' @ newline @ ''Chess has 2'' @ newline @ ''Go has 1'' @ newline @
           ''<@!1>,<@!2> are ready to play Chess''], ?st)"
    by (simp add: run_defs store_defs)
  from status_response [of register_bot ?m empty_roster]
  have 2: "get_all_responses register_bot StatusHandler ?m empty_roster =
     Inr ([''Bot alive''], empty_roster)"
    by (simp add: run_defs store_defs)
  from s 1 2 show ?thesis by simp
qed

section \<open>Same, with no game\<close>

text \<open>
  The first loop of the no-game generator records and announces once per game, in turn;
  the second one appends the readiness messages of the same games.
\<close>

lemma same_record_loop_in_turn:
  "same_record_loop e m gs acc st =
     (case responses_in_turn (record_and_announce e (author m)) gs st of
        Inl err \<Rightarrow> Inl err
      | Inr (anns, st1) \<Rightarrow> Inr (acc @ anns, st1))"
proof (induction gs arbitrary: acc st)
  case Nil
  show ?case by simp
next
  case (Cons g gs)
  show ?case
  proof (cases "record_would_play e (author m) (Some g) st")
    case (Inl err)
    then show ?thesis by (simp add: record_and_announce_def)
  next
    case (Inr p)
    obtain wp st1 where p: "p = (wp, st1)" by (cases p)
    show ?thesis
      using Inr p Cons.IH [of "acc @ [would_play_line e '' would also play '' wp g st1]" st1]
      by (simp add: record_and_announce_def split: sum.splits)
  qed
qed

lemma same_ready_loop_concat:
  "same_ready_loop e gs acc st = acc @ concat (map (\<lambda>g. get_any_ready_messages e g st) gs)"
  by (induction gs arbitrary: acc) simp_all

lemma record_in_turn_total:
  assumes "\<forall>g s. \<exists>wp s1. record_would_play e p (Some g) s = Inr (wp, s1)"
  shows "\<exists>anns st1. responses_in_turn (record_and_announce e p) gs st = Inr (anns, st1) \<and>
           length anns = length gs"
proof (induction gs arbitrary: st)
  case Nil
  show ?case by simp
next
  case (Cons g gs)
  from assms obtain wp s1 where r: "record_would_play e p (Some g) st = Inr (wp, s1)"
    by blast
  from Cons.IH [of s1] obtain anns st1
    where t: "responses_in_turn (record_and_announce e p) gs s1 = Inr (anns, st1)"
      and l: "length anns = length gs"
    by blast
  from r have "record_and_announce e p g st =
      Inr ([would_play_line e '' would also play '' wp g s1], s1)"
    by (simp add: record_and_announce_def)
  with t l show ?case by simp
qed

lemma same_without_game_in_turn:
  "get_last_would_plays_at_same_time e st \<noteq> [] \<Longrightarrow>
   SameHandler_without_game e m st =
     (case responses_in_turn (record_and_announce e (author m))
             (set_iteration e (map game (get_last_would_plays_at_same_time e st))) st of
        Inl err \<Rightarrow> Inl err
      | Inr (anns, st1) \<Rightarrow>
          Inr (anns @ concat (map (\<lambda>g. get_any_ready_messages e g st1)
                 (set_iteration e (map game (get_last_would_plays_at_same_time e st)))), st1))"
  by (simp add: SameHandler_without_game_def Let_def same_record_loop_in_turn
      same_ready_loop_concat split: sum.splits)

text \<open>
  Claim C5. The Same handler on a message with no game: with no record in the store it
  returns no response and does not raise. Otherwise, with a store that accepts a record for
  every game, it records the intent of the author once for each game of the most recent
  records, each game once, and returns first the announcements, one per game, and then
  the readiness messages of these games, read off the store after the last recording.
\<close>

theorem same_without_game:
  assumes nogame: "\<not> list_ex (\<lambda>n. n \<noteq> []) (game_names e SameHandler m)"
  shows "(get_last_would_plays_at_same_time e st = [] \<longrightarrow>
            get_all_responses e SameHandler m st = Inr ([], st)) \<and>
         (get_last_would_plays_at_same_time e st \<noteq> [] \<and>
          (\<forall>xs. set (set_iteration e xs) = set xs \<and> distinct (set_iteration e xs)) \<and>
          (\<forall>g s. \<exists>wp s1. record_would_play e (author m) (Some g) s = Inr (wp, s1)) \<longrightarrow>
            (\<exists>gs anns st1.
               set gs = game ` set (get_last_would_plays_at_same_time e st) \<and> distinct gs \<and>
               responses_in_turn (record_and_announce e (author m)) gs st = Inr (anns, st1) \<and>
               length anns = length gs \<and>
               get_all_responses e SameHandler m st =
                 Inr (anns @ concat (map (\<lambda>g. get_any_ready_messages e g st1) gs), st1)))"
proof (intro conjI impI)
  have w: "get_all_responses e SameHandler m st = SameHandler_without_game e m st"
    using nogame by (simp add: mixin_no_game)
  {
    assume "get_last_would_plays_at_same_time e st = []"
    then show "get_all_responses e SameHandler m st = Inr ([], st)"
      using w by (simp add: SameHandler_without_game_def)
  }
  {
    assume a: "get_last_would_plays_at_same_time e st \<noteq> [] \<and>
          (\<forall>xs. set (set_iteration e xs) = set xs \<and> distinct (set_iteration e xs)) \<and>
          (\<forall>g s. \<exists>wp s1. record_would_play e (author m) (Some g) s = Inr (wp, s1))"
    let ?gs = "set_iteration e (map game (get_last_would_plays_at_same_time e st))"
    from a have s: "set ?gs = game ` set (get_last_would_plays_at_same_time e st)" "distinct ?gs"
      by simp_all
    from a have "\<forall>g s. \<exists>wp s1. record_would_play e (author m) (Some g) s = Inr (wp, s1)"
      by blast
    from record_in_turn_total [OF this, of ?gs st] obtain anns st1
      where t: "responses_in_turn (record_and_announce e (author m)) ?gs st = Inr (anns, st1)"
        and l: "length anns = length ?gs"
      by blast
    have "get_all_responses e SameHandler m st =
        Inr (anns @ concat (map (\<lambda>g. get_any_ready_messages e g st1) ?gs), st1)"
      using a w t by (simp add: same_without_game_in_turn)
    with s t l show "\<exists>gs anns st1.
               set gs = game ` set (get_last_would_plays_at_same_time e st) \<and> distinct gs \<and>
               responses_in_turn (record_and_announce e (author m)) gs st = Inr (anns, st1) \<and>
               length anns = length gs \<and>
               get_all_responses e SameHandler m st =
                 Inr (anns @ concat (map (\<lambda>g. get_any_ready_messages e g st1) gs), st1)"
      by blast
  }
qed


text \<open>
  Bob says \<^verbatim>\<open>same\<close> after Alice would play chess and go at one instant; and on an
  empty roster.
\<close>

theorem same_without_game_witness:
  "game_names register_bot SameHandler (says bob ''same'') = [''''] \<and>
   get_all_responses register_bot SameHandler (says bob ''same'') empty_roster =
     Inr ([], empty_roster) \<and>
   (\<exists>gs anns st1.
      set gs = game ` set (get_last_would_plays_at_same_time register_bot
                 \<lparr>would_plays = [(0, alice, Chess), (0, alice, Go)], clock = 1\<rparr>) \<and>
      distinct gs \<and>
      responses_in_turn (record_and_announce register_bot (author (says bob ''same''))) gs
        \<lparr>would_plays = [(0, alice, Chess), (0, alice, Go)], clock = 1\<rparr> = Inr (anns, st1) \<and>
      length anns = length gs \<and>
      get_all_responses register_bot SameHandler (says bob ''same'')
        \<lparr>would_plays = [(0, alice, Chess), (0, alice, Go)], clock = 1\<rparr> =
        Inr (anns @ concat (map (\<lambda>g. get_any_ready_messages register_bot g st1) gs), st1)) \<and>
   get_all_responses register_bot SameHandler (says bob ''same'')
     \<lparr>would_plays = [(0, alice, Chess), (0, alice, Go)], clock = 1\<rparr> =
     Inr ([''Bob would also play Chess (that'' @ apostrophe @ ''s 2)'',
           ''Bob would also play Go (that'' @ apostrophe @ ''s 2)'',
           ''<@!1>,<@!2> are ready to play Chess'',
           ''<@!1>,<@!2> are ready to play Go''],
          \<lparr>would_plays = [(0, alice, Chess), (0, alice, Go), (1, bob, Chess), (1, bob, Go)],
           clock = 1\<rparr>)"
proof -
  let ?m = "says bob ''same''"
  let ?st = "\<lparr>would_plays = [(0, alice, Chess), (0, alice, Go)], clock = 1\<rparr>"
  have n: "game_names register_bot SameHandler ?m = ['''']"
    by (simp add: run_defs)
  then have ng: "\<not> list_ex (\<lambda>n. n \<noteq> []) (game_names register_bot SameHandler ?m)"
    by simp
  have e: "get_last_would_plays_at_same_time register_bot empty_roster = []"
    by (simp add: run_defs store_defs)
  have l: "get_last_would_plays_at_same_time register_bot ?st \<noteq> []"
    by (simp add: run_defs store_defs)
  have i: "\<forall>xs. set (set_iteration register_bot xs) = set xs \<and>
     distinct (set_iteration register_bot xs)"
    by (simp add: register_bot_def)
  have r: "\<forall>g s. \<exists>wp s1. record_would_play register_bot (author ?m) (Some g) s = Inr (wp, s1)"
    by (simp add: register_bot_def store_record_would_play_def)
  from same_without_game [OF ng, of empty_roster] e
  have 1: "get_all_responses register_bot SameHandler ?m empty_roster = Inr ([], empty_roster)"
    by blast
  from same_without_game [OF ng, of ?st] l i r
  have 2: "\<exists>gs anns st1.
      set gs = game ` set (get_last_would_plays_at_same_time register_bot ?st) \<and>
      distinct gs \<and>
      responses_in_turn (record_and_announce register_bot (author ?m)) gs ?st = Inr (anns, st1) \<and>
      length anns = length gs \<and>
      get_all_responses register_bot SameHandler ?m ?st =
        Inr (anns @ concat (map (\<lambda>g. get_any_ready_messages register_bot g st1) gs), st1)"
    by blast
  have 3: "get_all_responses register_bot SameHandler ?m ?st =
     Inr ([''Bob would also play Chess (that'' @ apostrophe @ ''s 2)'',
           ''Bob would also play Go (that'' @ apostrophe @ ''s 2)'',
           ''<@!1>,<@!2> are ready to play Chess'',
           ''<@!1>,<@!2> are ready to play Go''],
          \<lparr>would_plays = [(0, alice, Chess), (0, alice, Go), (1, bob, Chess), (1, bob, Go)],
           clock = 1\<rparr>)"
    by (simp add: run_defs handler_defs store_defs)
  from n 1 2 3 show ?thesis by blast
qed

end
